theory Spec2Isabelle
  imports Main "HOL-Library.AList"
begin

section \<open>Go library functions used by the tunnel\<close>

text \<open>
  A Go string is a sequence of bytes; \<^typ>\<open>string\<close> is a list of 8-bit characters.
  \<open>Split\<close> is \<^verbatim>\<open>strings.Split(s, ",")\<close>: the fields between the commas, one more than
  there are commas, so that the empty string has the single field \<open>''''\<close>.
\<close>

fun Split :: "string \<Rightarrow> string list" where
  "Split [] = [[]]"
| "Split (c # cs) =
     (if c = CHR '','' then [] # Split cs
      else (case Split cs of [] \<Rightarrow> [[c]] | w # ws \<Rightarrow> (c # w) # ws))"

text \<open>
  \<^verbatim>\<open>strings.TrimSpace\<close> removes leading and trailing white space as Unicode defines it.
  On the UTF-8 bytes of the string these are the six ASCII characters tab, line feed,
  vertical tab, form feed, carriage return and space, and the encodings of U+0085, U+00A0,
  U+1680, U+2000 to U+200A, U+2028, U+2029, U+202F, U+205F and U+3000.
\<close>

definition space_runes :: "string list" where
  "space_runes =
     [[CHR 0x09], [CHR 0x0A], [CHR 0x0B], [CHR 0x0C], [CHR 0x0D], [CHR 0x20],
      [CHR 0xC2, CHR 0x85], [CHR 0xC2, CHR 0xA0],
      [CHR 0xE1, CHR 0x9A, CHR 0x80],
      [CHR 0xE2, CHR 0x80, CHR 0x80], [CHR 0xE2, CHR 0x80, CHR 0x81],
      [CHR 0xE2, CHR 0x80, CHR 0x82], [CHR 0xE2, CHR 0x80, CHR 0x83],
      [CHR 0xE2, CHR 0x80, CHR 0x84], [CHR 0xE2, CHR 0x80, CHR 0x85],
      [CHR 0xE2, CHR 0x80, CHR 0x86], [CHR 0xE2, CHR 0x80, CHR 0x87],
      [CHR 0xE2, CHR 0x80, CHR 0x88], [CHR 0xE2, CHR 0x80, CHR 0x89],
      [CHR 0xE2, CHR 0x80, CHR 0x8A],
      [CHR 0xE2, CHR 0x80, CHR 0xA8], [CHR 0xE2, CHR 0x80, CHR 0xA9],
      [CHR 0xE2, CHR 0x80, CHR 0xAF], [CHR 0xE2, CHR 0x81, CHR 0x9F],
      [CHR 0xE3, CHR 0x80, CHR 0x80]]"

text \<open>The number of bytes of the white-space rune a string starts with, 0 when it starts with none.\<close>

definition space_width :: "string list \<Rightarrow> string \<Rightarrow> nat" where
  "space_width runes s =
     (case List.find (\<lambda>r. take (length r) s = r) runes of None \<Rightarrow> 0 | Some r \<Rightarrow> length r)"

fun trim_left :: "string list \<Rightarrow> nat \<Rightarrow> string \<Rightarrow> string" where
  "trim_left runes 0 s = s"
| "trim_left runes (Suc n) s =
     (if space_width runes s = 0 then s else trim_left runes n (drop (space_width runes s) s))"

text \<open>
  Every step of \<open>trim_left\<close> removes at least one byte, so \<open>length s\<close> steps are enough.
  The right end is trimmed on the reversed string with the reversed encodings.
\<close>

definition TrimSpace :: "string \<Rightarrow> string" where
  "TrimSpace s =
     (let l = trim_left space_runes (length s) s
      in rev (trim_left (map rev space_runes) (length l) (rev l)))"

text \<open>\<^verbatim>\<open>trimArr\<close> trims every element of the array in place.\<close>

definition trimArr :: "string list \<Rightarrow> string list" where
  "trimArr arr = map TrimSpace arr"

text \<open>
  \<^verbatim>\<open>strconv.Atoi\<close> with the error dropped (\<^verbatim>\<open>delay, _ := strconv.Atoi(...)\<close>), for the
  64-bit \<^verbatim>\<open>int\<close>: an optional sign and decimal digits give their value, clamped to the
  range of \<^verbatim>\<open>int64\<close> when it is out of range; anything else gives 0.
\<close>

definition digit :: "char \<Rightarrow> bool" where
  "digit c = (c \<in> set ''0123456789'')"

fun decimal :: "string \<Rightarrow> int \<Rightarrow> int" where
  "decimal [] n = n"
| "decimal (c # cs) n = decimal cs (n * 10 + (int (of_char c) - 48))"

definition Atoi :: "string \<Rightarrow> int" where
  "Atoi s =
     (let neg = (s \<noteq> [] \<and> hd s = CHR ''-'');
          ds = (if s \<noteq> [] \<and> (hd s = CHR ''-'' \<or> hd s = CHR ''+'') then tl s else s)
      in if ds = [] \<or> \<not> list_all digit ds then 0
         else if neg then max (- (2 ^ 63)) (- decimal ds 0)
         else min (2 ^ 63 - 1) (decimal ds 0))"

text \<open>
  \<^verbatim>\<open>time.Duration(delay) * time.Second\<close>: the conversion to \<^verbatim>\<open>int64\<close> keeps the value, the
  product of 64-bit signed integers wraps around (\<open>wrap64\<close>), and \<^verbatim>\<open>time.Second\<close> is
  \<open>10\<^sup>9\<close> nanoseconds.
\<close>

definition wrap64 :: "int \<Rightarrow> int" where
  "wrap64 i = (i + 2 ^ 63) mod 2 ^ 64 - 2 ^ 63"

definition Second :: int where
  "Second = 1000000000"

definition Duration :: "int \<Rightarrow> int" where
  "Duration delay = delay"

section \<open>Data model\<close>

text \<open>
  Go's \<^verbatim>\<open>error\<close> values are represented by their message (\<^verbatim>\<open>err.Error()\<close>); \<open>None\<close>
  in an \<open>error option\<close> is \<^verbatim>\<open>nil\<close>.
\<close>

type_synonym error = string

text \<open>
  The proxies of package \<^verbatim>\<open>adapters\<close>, each written as the constructor call that makes it:
  \<^verbatim>\<open>NewDirect(t.traffic)\<close>, \<^verbatim>\<open>NewReject()\<close>, \<^verbatim>\<open>NewShadowSocks(name, ssURL, t.traffic)\<close> and
  \<^verbatim>\<open>NewURLTest(name, ps, url, delay)\<close>. The tunnel has one traffic meter for its whole life,
  so it is left out. The type test \<^verbatim>\<open>proxy.(*adapters.URLTest)\<close> is \<open>is_URLTest\<close>.
\<close>

datatype proxy =
    Direct
  | Reject
  | ShadowSocks string string
  | URLTest string "proxy list" string int

fun is_URLTest :: "proxy \<Rightarrow> bool" where
  "is_URLTest (URLTest name ps url delay) = True"
| "is_URLTest p = False"

text \<open>
  Modelled from the spec: the two constructors of package \<^verbatim>\<open>adapters\<close> that can fail;
  the package is not among the sources. A proxy is "constructed from a named,
  protocol-specific URL/credential string", and a constructor may report "a hard
  validation failure (e.g., a malformed tunnel URL)". Whether a call fails, and with which
  error, is the parameter \<open>A\<close>; a call that does not fail makes the proxy of its
  arguments.
\<close>

record adapters =
  NewShadowSocks_error :: "string \<Rightarrow> string \<Rightarrow> error option"
  NewURLTest_error :: "string \<Rightarrow> proxy list \<Rightarrow> string \<Rightarrow> int \<Rightarrow> error option"

definition NewShadowSocks :: "adapters \<Rightarrow> string \<Rightarrow> string \<Rightarrow> error + proxy" where
  "NewShadowSocks A name ssURL =
     (case NewShadowSocks_error A name ssURL of
        Some err \<Rightarrow> Inl err
      | None \<Rightarrow> Inr (ShadowSocks name ssURL))"

definition NewURLTest :: "adapters \<Rightarrow> string \<Rightarrow> proxy list \<Rightarrow> string \<Rightarrow> int \<Rightarrow> error + proxy" where
  "NewURLTest A name ps url delay =
     (case NewURLTest_error A name ps url delay of
        Some err \<Rightarrow> Inl err
      | None \<Rightarrow> Inr (URLTest name ps url delay))"

text \<open>
  The rules of package \<^verbatim>\<open>rules\<close>, again as the constructor calls of \<^verbatim>\<open>UpdateConfig\<close>:
  a payload and an adapter name, and for the final rule the adapter name alone.
\<close>

datatype rule =
    NewDomainSuffix string string
  | NewDomainKeyword string string
  | NewGEOIP string string
  | NewIPCIDR string string
  | NewFinal string

text \<open>
  Modelled from the spec: the methods \<^verbatim>\<open>Adapter\<close> and \<^verbatim>\<open>IsMatch\<close> of the rules, whose
  package is not among the sources. A rule is "mapped to an outbound proxy name", the name
  it was made with, and "the final rule [...] always matches". What the other four kinds
  match is decided outside the tunnel and is the parameter \<open>M\<close>.
\<close>

fun Adapter :: "rule \<Rightarrow> string" where
  "Adapter (NewDomainSuffix payload adapter) = adapter"
| "Adapter (NewDomainKeyword payload adapter) = adapter"
| "Adapter (NewGEOIP payload adapter) = adapter"
| "Adapter (NewIPCIDR payload adapter) = adapter"
| "Adapter (NewFinal adapter) = adapter"

fun IsMatch :: "(rule \<Rightarrow> 'a \<Rightarrow> bool) \<Rightarrow> rule \<Rightarrow> 'a \<Rightarrow> bool" where
  "IsMatch M (NewFinal adapter) addr = True"
| "IsMatch M rule addr = M rule addr"

text \<open>
  Modelled from the spec: the log events of the tunnel, "{level, kind-tag, message}", whose
  declarations are not among the sources. \<^verbatim>\<open>newLog(level, format, args...)\<close> is kept as
  the level, the format and the arguments. The four levels are the constants that the
  sources name; the numbers behind them are not known.
\<close>

datatype LogLevel = ERROR | WARNING | INFO | DEBUG

datatype 'a arg = AddrString 'a | RuleTypeString rule | Str string

record 'p Log =
  LogLevel :: LogLevel
  Payload :: 'p

definition newLog :: "LogLevel \<Rightarrow> string \<Rightarrow> 'a arg list \<Rightarrow> (string \<times> 'a arg list) Log" where
  "newLog level format args = \<lparr>LogLevel = level, Payload = (format, args)\<rparr>"

text \<open>
  The configuration document: three sections, each the list of its keys in the order of
  the document, a key having a name and a value.
\<close>

record key =
  Name :: string
  Value :: string

record config =
  Proxy :: "key list"
  Rule :: "key list"
  ProxyGroup :: "key list"

section \<open>The loops of \<^verbatim>\<open>UpdateConfig\<close> and \<^verbatim>\<open>match\<close>\<close>

text \<open>
  The loop over the keys of section \<^verbatim>\<open>Proxy\<close>. A line of fewer than five fields, or of a
  type other than \<^verbatim>\<open>ss\<close>, is passed over; an error of the constructor ends the loop and
  is returned.
\<close>

fun parse_proxies :: "adapters \<Rightarrow> key list \<Rightarrow> (string \<times> proxy) list \<Rightarrow> error + (string \<times> proxy) list" where
  "parse_proxies A [] proxies = Inr proxies"
| "parse_proxies A (key # keys) proxies =
     (let proxy = Split (Value key) in
      if length proxy < 5 then parse_proxies A keys proxies
      else
        let proxy = trimArr proxy in
        if proxy ! 0 = ''ss'' then
          (let ssURL = ''ss://'' @ proxy ! 3 @ '':'' @ proxy ! 4 @ ''@'' @ proxy ! 1 @ '':'' @ proxy ! 2 in
           case NewShadowSocks A (Name key) ssURL of
             Inl err \<Rightarrow> Inl err
           | Inr ss \<Rightarrow> parse_proxies A keys (AList.update (Name key) ss proxies))
        else parse_proxies A keys proxies)"

text \<open>
  The loop over the keys of section \<^verbatim>\<open>Rule\<close>: the rule is the name of the key. A line of
  fewer than three fields, or of a kind the \<^verbatim>\<open>switch\<close> has no case for, is passed over.
\<close>

fun parse_rules :: "key list \<Rightarrow> rule list \<Rightarrow> rule list" where
  "parse_rules [] rules = rules"
| "parse_rules (key # keys) rules =
     (let rule = Split (Name key) in
      if length rule < 3 then parse_rules keys rules
      else
        let rule = trimArr rule in
        if rule ! 0 = ''DOMAIN-SUFFIX'' then
          parse_rules keys (rules @ [NewDomainSuffix (rule ! 1) (rule ! 2)])
        else if rule ! 0 = ''DOMAIN-KEYWORD'' then
          parse_rules keys (rules @ [NewDomainKeyword (rule ! 1) (rule ! 2)])
        else if rule ! 0 = ''GEOIP'' then
          parse_rules keys (rules @ [NewGEOIP (rule ! 1) (rule ! 2)])
        else if rule ! 0 = ''IP-CIDR'' \<or> rule ! 0 = ''IP-CIDR6'' then
          parse_rules keys (rules @ [NewIPCIDR (rule ! 1) (rule ! 2)])
        else if rule ! 0 = ''FINAL'' then
          parse_rules keys (rules @ [NewFinal (rule ! 2)])
        else parse_rules keys rules)"

text \<open>
  The inner loop of the groups: the members of a group are the proxies that the map holds
  under the names of the line, in the order of the line.
\<close>

fun lookup_members :: "(string \<times> proxy) list \<Rightarrow> string list \<Rightarrow> proxy list \<Rightarrow> proxy list" where
  "lookup_members proxies [] ps = ps"
| "lookup_members proxies (name # proxyNames) ps =
     (case map_of proxies name of
        Some p \<Rightarrow> lookup_members proxies proxyNames (ps @ [p])
      | None \<Rightarrow> lookup_members proxies proxyNames ps)"

text \<open>
  The loop over the keys of section \<^verbatim>\<open>Proxy Group\<close>. With at least four fields the slice
  \<^verbatim>\<open>group[1 : len(group)-2]\<close> and the two last fields are in range. The group is assigned
  to the same map that the loop reads its members from.
\<close>

fun parse_groups :: "adapters \<Rightarrow> key list \<Rightarrow> (string \<times> proxy) list \<Rightarrow> error + (string \<times> proxy) list" where
  "parse_groups A [] proxies = Inr proxies"
| "parse_groups A (key # keys) proxies =
     (let group = Split (Value key) in
      if length group < 4 then parse_groups A keys proxies
      else
        let group = trimArr group in
        if group ! 0 = ''url-test'' then
          (let proxyNames = drop 1 (take (length group - 2) group);
               delay = Atoi (group ! (length group - 1));
               url = group ! (length group - 2);
               ps = lookup_members proxies proxyNames []
           in case NewURLTest A (Name key) ps url (wrap64 (Duration delay * Second)) of
                Inl err \<Rightarrow> Inl (''Config error: '' @ err)
              | Inr adapter \<Rightarrow> parse_groups A keys (AList.update (Name key) adapter proxies))
        else parse_groups A keys proxies)"

text \<open>
  The loop of \<^verbatim>\<open>match\<close> over the rules. A rule that matches is used only if the map holds
  its adapter; otherwise the loop goes on with the next rule. After the loop the result is
  \<^verbatim>\<open>t.proxies["DIRECT"]\<close>, which is \<^verbatim>\<open>nil\<close> (\<open>None\<close>) when the map has no such key.
  The result carries the log event that was sent.
\<close>

fun match_rules ::
  "(rule \<Rightarrow> 'a \<Rightarrow> bool) \<Rightarrow> rule list \<Rightarrow> (string \<times> proxy) list \<Rightarrow> 'a \<Rightarrow>
     (string \<times> 'a arg list) Log \<times> proxy option" where
  "match_rules M [] proxies addr =
     (newLog INFO ''%v doesn't match any rule using DIRECT'' [AddrString addr],
      map_of proxies ''DIRECT'')"
| "match_rules M (rule # rest) proxies addr =
     (if IsMatch M rule addr then
        (case map_of proxies (Adapter rule) of
           Some proxy \<Rightarrow>
             (newLog INFO ''%v match %s using %s''
                [AddrString addr, RuleTypeString rule, Str (Adapter rule)],
              Some proxy)
         | None \<Rightarrow> match_rules M rest proxies addr)
      else match_rules M rest proxies addr)"

section \<open>\<^verbatim>\<open>UpdateConfig\<close>\<close>

text \<open>
  The tunnel, as far as \<^verbatim>\<open>UpdateConfig\<close> and \<^verbatim>\<open>match\<close> read and write it. The Go map
  \<^verbatim>\<open>proxies\<close> is an association list: \<open>map_of\<close> looks a name up, \<open>AList.update\<close> assigns
  to it. The order of the list stands for the order in which \<^verbatim>\<open>range\<close> visits the map, which
  Go leaves open.
\<close>

record Tunnel =
  rules :: "rule list"
  proxies :: "(string \<times> proxy) list"

text \<open>
  What a call does to the world besides the tunnel's two tables: the write lock taken and
  released, and \<^verbatim>\<open>Close\<close> called on a group.
\<close>

datatype event = Lock | Close proxy | Unlock

fun stop_url_tests :: "(string \<times> proxy) list \<Rightarrow> event list" where
  "stop_url_tests [] = []"
| "stop_url_tests ((name, proxy) # rest) =
     (if is_URLTest proxy then Close proxy # stop_url_tests rest else stop_url_tests rest)"

record result =
  err :: "error option"
  tunnel :: Tunnel
  events :: "event list"

text \<open>
  \<^verbatim>\<open>UpdateConfig\<close>. The argument \<open>src\<close> is what \<^verbatim>\<open>C.GetConfig()\<close> returns: an error or the
  document. Every \<^verbatim>\<open>return err\<close> comes before the lock is taken and before the tunnel is
  written.
\<close>

definition UpdateConfig :: "adapters \<Rightarrow> Tunnel \<Rightarrow> error + config \<Rightarrow> result" where
  "UpdateConfig A t src =
     (case src of
        Inl e \<Rightarrow> \<lparr>err = Some e, tunnel = t, events = []\<rparr>
      | Inr cfg \<Rightarrow>
          (case parse_proxies A (Proxy cfg) [] of
             Inl e \<Rightarrow> \<lparr>err = Some e, tunnel = t, events = []\<rparr>
           | Inr proxies1 \<Rightarrow>
               (let rules' = parse_rules (Rule cfg) [] in
                case parse_groups A (ProxyGroup cfg) proxies1 of
                  Inl e \<Rightarrow> \<lparr>err = Some e, tunnel = t, events = []\<rparr>
                | Inr proxies2 \<Rightarrow>
                    (let proxies3 = AList.update ''DIRECT'' Direct proxies2;
                         proxies4 = AList.update ''REJECT'' Reject proxies3
                     in \<lparr>err = None,
                         tunnel = t\<lparr>proxies := proxies4, rules := rules'\<rparr>,
                         events = Lock # stop_url_tests (proxies t) @ [Unlock]\<rparr>))))"

section \<open>\<^verbatim>\<open>match\<close> and \<^verbatim>\<open>handleConn\<close>\<close>

definition match :: "(rule \<Rightarrow> 'a \<Rightarrow> bool) \<Rightarrow> Tunnel \<Rightarrow> 'a \<Rightarrow> (string \<times> 'a arg list) Log \<times> proxy option" where
  "match M t addr = match_rules M (rules t) (proxies t) addr"

text \<open>
  \<^verbatim>\<open>handleConn\<close>. What it does is the list of its calls on the two connections and of the
  log events it sends. A call into code outside the tunnel either returns or panics; a
  deferred \<^verbatim>\<open>Close\<close> runs in both cases. \<open>G\<close> is \<^verbatim>\<open>proxy.Generator(addr)\<close> and \<open>R\<close> the relay
  \<^verbatim>\<open>localConn.Connect(remoteConn)\<close>. A method call on the \<^verbatim>\<open>nil\<close> proxy panics.
\<close>

datatype 'r call = Panics | Returns 'r

datatype ('a, 'c) conn_event =
    LogSend "(string \<times> 'a arg list) Log"
  | LocalConnect 'c
  | RemoteClose 'c
  | LocalClose

datatype exit = Returned | Panicked

definition handleConn ::
  "(rule \<Rightarrow> 'a \<Rightarrow> bool) \<Rightarrow> (proxy \<Rightarrow> 'a \<Rightarrow> (error + 'c) call) \<Rightarrow> ('c \<Rightarrow> unit call) \<Rightarrow>
     Tunnel \<Rightarrow> 'a \<Rightarrow> ('a, 'c) conn_event list \<times> exit" where
  "handleConn M G R t addr =
     (case match M t addr of
        (l, None) \<Rightarrow> ([LogSend l, LocalClose], Panicked)
      | (l, Some proxy) \<Rightarrow>
          (case G proxy addr of
             Panics \<Rightarrow> ([LogSend l, LocalClose], Panicked)
           | Returns (Inl e) \<Rightarrow>
               ([LogSend l, LogSend (newLog WARNING ''Proxy connect error: %s'' [Str e]), LocalClose],
                Returned)
           | Returns (Inr remoteConn) \<Rightarrow>
               (case R remoteConn of
                  Panics \<Rightarrow>
                    ([LogSend l, LocalConnect remoteConn, RemoteClose remoteConn, LocalClose], Panicked)
                | Returns u \<Rightarrow>
                    ([LogSend l, LocalConnect remoteConn, RemoteClose remoteConn, LocalClose], Returned))))"

section \<open>\<^verbatim>\<open>logsHandler\<close>\<close>

text \<open>
  The handler of \<^verbatim>\<open>/logs\<close>. Its inputs are what its calls into other packages return:
  \<open>decoded\<close> is the result of \<^verbatim>\<open>render.DecodeJSON\<close>, \<open>subscribed\<close> the result of
  \<^verbatim>\<open>src.Subscribe()\<close> (an error, or the events that arrive on the channel until it is
  closed), \<open>flusher\<close> whether the writer is an \<^verbatim>\<open>http.Flusher\<close>, and \<open>W n\<close> whether the
  \<open>n\<close>-th call of \<^verbatim>\<open>Encode\<close> succeeds. The declarations of \<^verbatim>\<open>tunnel.LogLevel\<close> are not among
  the sources: \<open>V\<close> gives the number behind each of the four constants, which is what
  \<^verbatim>\<open>log.LogLevel > level\<close> compares, and \<open>T\<close> is the method \<^verbatim>\<open>Type\<close>.
\<close>

record LogRequest =
  Level :: string

datatype 'p LogEntry = LogEntry string 'p

datatype 'p response = Error string nat | Stream "'p LogEntry list"

definition StatusBadRequest :: nat where
  "StatusBadRequest = 400"

definition StatusInternalServerError :: nat where
  "StatusInternalServerError = 500"

definition levelMapping :: "string \<Rightarrow> LogLevel option" where
  "levelMapping =
     map_of [(''info'', INFO), (''debug'', DEBUG), (''error'', ERROR), (''warning'', WARNING)]"

fun stream ::
  "(LogLevel \<Rightarrow> int) \<Rightarrow> ('p Log \<Rightarrow> string) \<Rightarrow> (nat \<Rightarrow> bool) \<Rightarrow> LogLevel \<Rightarrow> 'p Log list \<Rightarrow> nat \<Rightarrow>
     'p LogEntry list" where
  "stream V T W level [] n = []"
| "stream V T W level (log # sub) n =
     (if V (LogLevel log) > V level then stream V T W level sub n
      else if W n then LogEntry (T log) (Payload log) # stream V T W level sub (Suc n)
      else [])"

definition logsHandler ::
  "(LogLevel \<Rightarrow> int) \<Rightarrow> ('p Log \<Rightarrow> string) \<Rightarrow> (nat \<Rightarrow> bool) \<Rightarrow>
     error + LogRequest \<Rightarrow> error + 'p Log list \<Rightarrow> bool \<Rightarrow> 'p response" where
  "logsHandler V T W decoded subscribed flusher =
     (case decoded of
        Inl e \<Rightarrow> Error ''Invalid request payload'' StatusBadRequest
      | Inr req \<Rightarrow>
          (let req = (if Level req = [] then req\<lparr>Level := ''info''\<rparr> else req) in
           case levelMapping (Level req) of
             None \<Rightarrow> Error ''Invalid log level'' StatusBadRequest
           | Some level \<Rightarrow>
               (case subscribed of
                  Inl e \<Rightarrow> Error ''Unable to subscribe to logs'' StatusInternalServerError
                | Inr sub \<Rightarrow>
                    if \<not> flusher then Error ''Streaming not supported'' StatusInternalServerError
                    else Stream (stream V T W level sub 0))))"

text \<open>
  The order of severity as the specification gives it, \<open>debug < info < warning < error\<close>,
  to state what the filter of the handler lets through.
\<close>

fun spec_severity :: "LogLevel \<Rightarrow> nat" where
  "spec_severity DEBUG = 0"
| "spec_severity INFO = 1"
| "spec_severity WARNING = 2"
| "spec_severity ERROR = 3"

text \<open>
  What the specification has a stream deliver: the entries of the published events whose
  severity is at or above the requested minimum, in the order in which they were published.
\<close>

definition spec_delivered :: "('p Log \<Rightarrow> string) \<Rightarrow> LogLevel \<Rightarrow> 'p Log list \<Rightarrow> 'p LogEntry list" where
  "spec_delivered T minimum published =
     map (\<lambda>log. LogEntry (T log) (Payload log))
       (filter (\<lambda>log. spec_severity minimum \<le> spec_severity (LogLevel log)) published)"

section \<open>The entries that the loops pass over, and the lines that fail\<close>

text \<open>The labels of the \<^verbatim>\<open>switch\<close> over the kind of a rule.\<close>

definition rule_kinds :: "string list" where
  "rule_kinds = [''DOMAIN-SUFFIX'', ''DOMAIN-KEYWORD'', ''GEOIP'', ''IP-CIDR'', ''IP-CIDR6'', ''FINAL'']"

text \<open>
  A proxy line on which \<^verbatim>\<open>NewShadowSocks\<close> is called and reports an error, and a group line
  on which \<^verbatim>\<open>NewURLTest\<close> is called and reports an error whatever the members are (a test
  URL that does not parse, for one).
\<close>

definition proxy_line_fails :: "adapters \<Rightarrow> key \<Rightarrow> bool" where
  "proxy_line_fails A key =
     (5 \<le> length (Split (Value key)) \<and>
      (let proxy = trimArr (Split (Value key)) in
       proxy ! 0 = ''ss'' \<and>
       NewShadowSocks_error A (Name key)
         (''ss://'' @ proxy ! 3 @ '':'' @ proxy ! 4 @ ''@'' @ proxy ! 1 @ '':'' @ proxy ! 2) \<noteq> None))"

definition group_line_fails :: "adapters \<Rightarrow> key \<Rightarrow> bool" where
  "group_line_fails A key =
     (4 \<le> length (Split (Value key)) \<and>
      (let group = trimArr (Split (Value key)) in
       group ! 0 = ''url-test'' \<and>
       (\<forall>ps. NewURLTest_error A (Name key) ps (group ! (length group - 2))
               (wrap64 (Duration (Atoi (group ! (length group - 1))) * Second)) \<noteq> None)))"

section \<open>Example inputs\<close>

text \<open>
  Adapters whose constructors accept every argument, adapters that refuse every
  Shadowsocks URL, rules of which only the final one matches, the level constants numbered
  from \<^verbatim>\<open>ERROR = 0\<close> to \<^verbatim>\<open>DEBUG = 3\<close>, and the tunnel as \<^verbatim>\<open>newTunnel\<close> makes it.
\<close>

definition accept_all :: adapters where
  "accept_all = \<lparr>NewShadowSocks_error = (\<lambda>name ssURL. None),
                 NewURLTest_error = (\<lambda>name ps url delay. None)\<rparr>"

definition reject_ss :: adapters where
  "reject_ss = \<lparr>NewShadowSocks_error = (\<lambda>name ssURL. Some ''invalid ss url''),
                NewURLTest_error = (\<lambda>name ps url delay. None)\<rparr>"

definition final_only :: "rule \<Rightarrow> string \<Rightarrow> bool" where
  "final_only rule addr = False"

definition iota_levels :: "LogLevel \<Rightarrow> int" where
  "iota_levels l = (case l of ERROR \<Rightarrow> 0 | WARNING \<Rightarrow> 1 | INFO \<Rightarrow> 2 | DEBUG \<Rightarrow> 3)"

definition newTunnel :: Tunnel where
  "newTunnel = \<lparr>rules = [], proxies = []\<rparr>"

text \<open>
  A tunnel whose first rule names an adapter that the proxy table does not hold, followed
  by a rule whose adapter it holds.
\<close>

definition stale_first :: Tunnel where
  "stale_first =
     \<lparr>rules = [NewFinal ''GHOST'', NewFinal ''PROXY1''],
      proxies = [(''PROXY1'', ShadowSocks ''PROXY1'' ''ss://aes-256-gcm:pass@1.2.3.4:8388''),
                 (''DIRECT'', Direct), (''REJECT'', Reject)]\<rparr>"

text \<open>
  A document with entries of every kind the loops pass over: a proxy line of three
  fields, a rule line of two fields, a rule line of an unknown kind and a group line of
  three fields. It also declares a proxy under the name \<open>DIRECT\<close> and a group under the
  name \<open>REJECT\<close>.
\<close>

definition sample_config :: config where
  "sample_config =
     \<lparr>Proxy =
        [\<lparr>Name = ''PROXY1'', Value = ''ss, 1.2.3.4, 8388, aes-256-gcm, pass''\<rparr>,
         \<lparr>Name = ''BROKEN'', Value = ''ss, 1.2.3.4, 8388''\<rparr>,
         \<lparr>Name = ''DIRECT'', Value = ''ss, 5.6.7.8, 443, aes-128-gcm, secret''\<rparr>],
      Rule =
        [\<lparr>Name = ''DOMAIN-SUFFIX,example.com,PROXY1'', Value = ''true''\<rparr>,
         \<lparr>Name = ''DOMAIN-KEYWORD,example'', Value = ''true''\<rparr>,
         \<lparr>Name = ''WILDCARD,*.example.org,PROXY1'', Value = ''true''\<rparr>,
         \<lparr>Name = ''FINAL,,DIRECT'', Value = ''true''\<rparr>],
      ProxyGroup =
        [\<lparr>Name = ''AUTO'', Value = ''url-test, PROXY1, DIRECT, http://t/204, 300''\<rparr>,
         \<lparr>Name = ''SHORT'', Value = ''url-test, PROXY1, 300''\<rparr>,
         \<lparr>Name = ''REJECT'', Value = ''url-test, AUTO, http://t/204, 300''\<rparr>]\<rparr>"

text \<open>A tunnel whose proxy table holds a group.\<close>

definition with_groups :: Tunnel where
  "with_groups =
     \<lparr>rules = [NewFinal ''AUTO''],
      proxies = [(''PROXY1'', ShadowSocks ''PROXY1'' ''ss://aes-256-gcm:pass@1.2.3.4:8388''),
                 (''AUTO'', URLTest ''AUTO'' [ShadowSocks ''PROXY1'' ''ss://aes-256-gcm:pass@1.2.3.4:8388'']
                    ''http://t/204'' 300000000000),
                 (''DIRECT'', Direct), (''REJECT'', Reject)]\<rparr>"

text \<open>
  Two documents whose rule section has a line of two fields and a \<open>FINAL\<close> line: in the
  first the \<open>FINAL\<close> line has the two fields of the specification's grammar, in the second
  the three fields that \<^verbatim>\<open>UpdateConfig\<close> reads.
\<close>

definition two_field_final :: config where
  "two_field_final =
     \<lparr>Proxy = [],
      Rule = [\<lparr>Name = ''DOMAIN-SUFFIX,example.com'', Value = ''true''\<rparr>,
              \<lparr>Name = ''FINAL,DIRECT'', Value = ''true''\<rparr>],
      ProxyGroup = []\<rparr>"

definition three_field_final :: config where
  "three_field_final =
     \<lparr>Proxy = [],
      Rule = [\<lparr>Name = ''DOMAIN-SUFFIX,example.com'', Value = ''true''\<rparr>,
              \<lparr>Name = ''FINAL,,DIRECT'', Value = ''true''\<rparr>],
      ProxyGroup = []\<rparr>"

text \<open>A document in which the second group names the first as a member.\<close>

definition nested_groups :: config where
  "nested_groups =
     \<lparr>Proxy = [\<lparr>Name = ''PROXY1'', Value = ''ss, 1.2.3.4, 8388, aes-256-gcm, pass''\<rparr>],
      Rule = [],
      ProxyGroup =
        [\<lparr>Name = ''G1'', Value = ''url-test, PROXY1, DIRECT, http://t/204, 10''\<rparr>,
         \<lparr>Name = ''G2'', Value = ''url-test, G1, REJECT, NOPE, http://t/204, 10''\<rparr>]\<rparr>"

text \<open>
  Events of all four levels as a subscription delivers them, and a \<^verbatim>\<open>Type\<close> method.
\<close>

definition sample_logs :: "string Log list" where
  "sample_logs =
     [\<lparr>LogLevel = INFO, Payload = ''a.org match FINAL using DIRECT''\<rparr>,
      \<lparr>LogLevel = ERROR, Payload = ''listener stopped''\<rparr>,
      \<lparr>LogLevel = DEBUG, Payload = ''probe''\<rparr>,
      \<lparr>LogLevel = WARNING, Payload = ''Proxy connect error: refused''\<rparr>]"

definition type_name :: "string Log \<Rightarrow> string" where
  "type_name log = (case LogLevel log of ERROR \<Rightarrow> ''Error'' | WARNING \<Rightarrow> ''Warning''
      | INFO \<Rightarrow> ''Info'' | DEBUG \<Rightarrow> ''Debug'')"

text \<open>
  A proxy whose \<^verbatim>\<open>Generator\<close> reports an error, one that returns the connection \<open>7\<close>, and
  a relay that panics.
\<close>

definition refuse :: "proxy \<Rightarrow> string \<Rightarrow> (error + nat) call" where
  "refuse proxy addr = Returns (Inl ''connection refused'')"

definition dial :: "proxy \<Rightarrow> string \<Rightarrow> (error + nat) call" where
  "dial proxy addr = Returns (Inr 7)"

definition relay_panics :: "nat \<Rightarrow> unit call" where
  "relay_panics remoteConn = Panics"

section \<open>Rule matching\<close>

lemma match_rules_find:
  "snd (match_rules M rs ps a) =
     (case List.find (\<lambda>r. IsMatch M r a \<and> map_of ps (Adapter r) \<noteq> None) rs of
        Some r \<Rightarrow> map_of ps (Adapter r)
      | None \<Rightarrow> map_of ps ''DIRECT'')"
  by (induction rs) (auto split: option.splits)

text \<open>
  Claim C1, as the code has it, for a proxy table that holds \<open>DIRECT\<close>. \<^verbatim>\<open>match\<close> returns
  the proxy bound to the adapter name of the first rule, in the order of the table, that
  matches the address and whose adapter name is a key of the proxy table: a matching rule
  whose adapter name is missing is passed over and the later rules are still tried. When
  there is no such rule, \<^verbatim>\<open>match\<close> returns the \<open>DIRECT\<close> proxy. In every case the result is
  a proxy and not \<^verbatim>\<open>nil\<close>, so the call that the caller makes on it does not panic.
\<close>

theorem match_first_resolvable_rule:
  assumes "map_of (proxies t) ''DIRECT'' = Some direct"
  shows "snd (match M t addr) =
           (case List.find (\<lambda>r. IsMatch M r addr \<and> map_of (proxies t) (Adapter r) \<noteq> None) (rules t) of
              Some r \<Rightarrow> map_of (proxies t) (Adapter r)
            | None \<Rightarrow> Some direct)
       \<and> snd (match M t addr) \<noteq> None"
  using assms unfolding match_def match_rules_find
  by (auto split: option.splits dest: find_Some_iff[THEN iffD1])

theorem match_first_resolvable_rule_witness:
  "map_of (proxies stale_first) ''DIRECT'' = Some Direct
   \<and> snd (match final_only stale_first ''other.org'') =
       Some (ShadowSocks ''PROXY1'' ''ss://aes-256-gcm:pass@1.2.3.4:8388'')
   \<and> snd (match final_only (stale_first\<lparr>rules := [NewDomainSuffix ''example.com'' ''PROXY1'']\<rparr>)
         ''other.org'') = Some Direct"
proof -
  have d: "map_of (proxies stale_first) ''DIRECT'' = Some Direct"
    by (simp add: stale_first_def)
  have d': "map_of (proxies (stale_first\<lparr>rules := [NewDomainSuffix ''example.com'' ''PROXY1'']\<rparr>))
      ''DIRECT'' = Some Direct"
    by (simp add: stale_first_def)
  from match_first_resolvable_rule [OF d, of final_only "''other.org''"]
  have a: "snd (match final_only stale_first ''other.org'') =
       Some (ShadowSocks ''PROXY1'' ''ss://aes-256-gcm:pass@1.2.3.4:8388'')"
    by (simp add: stale_first_def)
  from match_first_resolvable_rule [OF d', of final_only "''other.org''"]
  have b: "snd (match final_only (stale_first\<lparr>rules := [NewDomainSuffix ''example.com'' ''PROXY1'']\<rparr>)
         ''other.org'') = Some Direct"
    by (simp add: stale_first_def final_only_def)
  from d a b show ?thesis by simp
qed

text \<open>
  Claim C1 as it is written fails: the first rule that matches \<open>other.org\<close> names the
  adapter \<open>GHOST\<close>, which the table does not hold, the table holds \<open>DIRECT\<close>, and the
  result is not the \<open>DIRECT\<close> proxy but the proxy of the second rule.
\<close>

theorem match_stale_adapter_counterexample:
  "IsMatch final_only (NewFinal ''GHOST'') ''other.org''
   \<and> rules stale_first = [NewFinal ''GHOST'', NewFinal ''PROXY1'']
   \<and> map_of (proxies stale_first) ''GHOST'' = None
   \<and> map_of (proxies stale_first) ''DIRECT'' = Some Direct
   \<and> snd (match final_only stale_first ''other.org'') \<noteq> Some Direct"
  by (simp add: stale_first_def match_def)

section \<open>Compiling a configuration\<close>

lemma parse_proxies_filter:
  "parse_proxies A (filter (\<lambda>k. 5 \<le> length (Split (Value k))) ks) acc = parse_proxies A ks acc"
  by (induction ks arbitrary: acc) (auto simp: Let_def split: sum.splits)

lemma parse_rules_filter:
  "parse_rules (filter (\<lambda>k. 3 \<le> length (Split (Name k))
        \<and> trimArr (Split (Name k)) ! 0 \<in> set rule_kinds) ks) acc = parse_rules ks acc"
  by (induction ks arbitrary: acc) (simp_all add: Let_def rule_kinds_def)

lemma parse_groups_filter:
  "parse_groups A (filter (\<lambda>k. 4 \<le> length (Split (Value k))) ks) acc = parse_groups A ks acc"
  by (induction ks arbitrary: acc) (auto simp: Let_def split: sum.splits)

text \<open>
  Claim C3. An entry with a wrong number of fields (a proxy line of fewer than five, a rule
  line of fewer than three, a group line of fewer than four) and a rule line of an unknown
  kind are passed over: \<^verbatim>\<open>UpdateConfig\<close> returns the same error or success, the same tables
  and the same events as on the document without these entries, so the other entries are
  compiled as before and no such entry makes it return an error.
\<close>

theorem malformed_entries_skipped:
  "UpdateConfig A t (Inr cfg) =
     UpdateConfig A t (Inr (cfg
       \<lparr>Proxy := filter (\<lambda>k. 5 \<le> length (Split (Value k))) (Proxy cfg),
        Rule := filter (\<lambda>k. 3 \<le> length (Split (Name k))
                  \<and> trimArr (Split (Name k)) ! 0 \<in> set rule_kinds) (Rule cfg),
        ProxyGroup := filter (\<lambda>k. 4 \<le> length (Split (Value k))) (ProxyGroup cfg)\<rparr>))"
  unfolding UpdateConfig_def
  by (simp add: parse_proxies_filter parse_rules_filter parse_groups_filter Let_def
      split: sum.splits)

theorem malformed_entries_skipped_witness:
  "err (UpdateConfig accept_all with_groups (Inr sample_config)) = None
   \<and> rules (tunnel (UpdateConfig accept_all with_groups (Inr sample_config))) =
       [NewDomainSuffix ''example.com'' ''PROXY1'', NewFinal ''DIRECT'']"
  using malformed_entries_skipped [of accept_all with_groups sample_config]
  by code_simp

lemma map_of_defaults:
  "map_of (AList.update ''REJECT'' Reject (AList.update ''DIRECT'' Direct ps)) ''DIRECT'' = Some Direct"
  "map_of (AList.update ''REJECT'' Reject (AList.update ''DIRECT'' Direct ps)) ''REJECT'' = Some Reject"
  by (simp_all add: update_conv')

text \<open>
  Claim C4. After a successful \<^verbatim>\<open>UpdateConfig\<close> the proxy table of the tunnel holds the
  built-in \<open>Direct\<close> under \<open>DIRECT\<close> and the built-in \<open>Reject\<close> under \<open>REJECT\<close>, whatever
  the document declared under these names.
\<close>

theorem reserved_names_are_builtin:
  assumes "err (UpdateConfig A t src) = None"
  shows "map_of (proxies (tunnel (UpdateConfig A t src))) ''DIRECT'' = Some Direct
       \<and> map_of (proxies (tunnel (UpdateConfig A t src))) ''REJECT'' = Some Reject"
  using assms
  by (auto simp: UpdateConfig_def Let_def map_of_defaults split: sum.splits)

theorem reserved_names_are_builtin_witness:
  "err (UpdateConfig accept_all with_groups (Inr sample_config)) = None
   \<and> map_of (proxies (tunnel (UpdateConfig accept_all with_groups (Inr sample_config)))) ''DIRECT''
       = Some Direct
   \<and> map_of (proxies (tunnel (UpdateConfig accept_all with_groups (Inr sample_config)))) ''REJECT''
       = Some Reject"
proof -
  have ok: "err (UpdateConfig accept_all with_groups (Inr sample_config)) = None"
    by code_simp
  from reserved_names_are_builtin [OF ok] ok show ?thesis by simp
qed

lemma parse_proxies_fail:
  assumes "k \<in> set ks" "proxy_line_fails A k"
  shows "\<exists>e. parse_proxies A ks acc = Inl e"
  using assms
proof (induction ks arbitrary: acc)
  case Nil
  then show ?case by simp
next
  case (Cons a ks)
  show ?case
  proof (cases "a = k")
    case True
    with Cons.prems show ?thesis
      by (auto simp: Let_def NewShadowSocks_def proxy_line_fails_def split: option.splits)
  next
    case False
    with Cons.prems have "k \<in> set ks" by simp
    from Cons.IH[OF this Cons.prems(2)] show ?thesis
      by (auto simp: Let_def split: sum.splits)
  qed
qed

lemma parse_groups_fail:
  assumes "k \<in> set ks" "group_line_fails A k"
  shows "\<exists>e. parse_groups A ks acc = Inl e"
  using assms
proof (induction ks arbitrary: acc)
  case Nil
  then show ?case by simp
next
  case (Cons a ks)
  show ?case
  proof (cases "a = k")
    case True
    from Cons.prems(2) have len: "4 \<le> length (Split (Value k))"
      and kind: "trimArr (Split (Value k)) ! 0 = ''url-test''"
      and fails: "\<And>ps. NewURLTest_error A (Name k) ps
          (trimArr (Split (Value k)) ! (length (trimArr (Split (Value k))) - 2))
          (wrap64 (Duration (Atoi (trimArr (Split (Value k)) !
             (length (trimArr (Split (Value k))) - 1))) * Second)) \<noteq> None"
      by (simp_all add: group_line_fails_def Let_def)
    from len kind show ?thesis
      using fails[of "lookup_members acc
          (drop 1 (take (length (trimArr (Split (Value k))) - 2) (trimArr (Split (Value k))))) []"]
      by (auto simp: True Let_def NewURLTest_def split: option.splits)
  next
    case False
    with Cons.prems have "k \<in> set ks" by simp
    from Cons.IH[OF this Cons.prems(2)] show ?thesis
      by (auto simp: Let_def split: sum.splits)
  qed
qed

lemma UpdateConfig_error_untouched:
  "err (UpdateConfig A t src) \<noteq> None \<Longrightarrow>
     tunnel (UpdateConfig A t src) = t \<and> events (UpdateConfig A t src) = []"
  by (auto simp: UpdateConfig_def Let_def split: sum.splits)

lemma UpdateConfig_proxy_failure:
  assumes "k \<in> set (Proxy cfg)" "proxy_line_fails A k"
  shows "err (UpdateConfig A t (Inr cfg)) \<noteq> None"
  using parse_proxies_fail[OF assms, of "[]"]
  by (auto simp: UpdateConfig_def)

lemma UpdateConfig_group_failure:
  assumes "k \<in> set (ProxyGroup cfg)" "group_line_fails A k"
  shows "err (UpdateConfig A t (Inr cfg)) \<noteq> None"
proof (cases "parse_proxies A (Proxy cfg) []")
  case (Inl e)
  then show ?thesis by (simp add: UpdateConfig_def)
next
  case (Inr ps)
  from parse_groups_fail[OF assms, of ps] obtain e where "parse_groups A (ProxyGroup cfg) ps = Inl e" ..
  with Inr show ?thesis by (simp add: UpdateConfig_def Let_def)
qed

text \<open>
  Claim C5. Whenever \<^verbatim>\<open>UpdateConfig\<close> returns an error, the tunnel is as it was before the
  call and nothing was locked or closed. It returns an error when the document cannot be
  read, when the constructor of a proxy reports an error on some line of the proxy
  section, and when the constructor of a group reports an error on some line of the group
  section.
\<close>

theorem failed_update_keeps_tables:
  "(err (UpdateConfig A t src) \<noteq> None \<longrightarrow>
      tunnel (UpdateConfig A t src) = t \<and> events (UpdateConfig A t src) = [])
   \<and> err (UpdateConfig A t (Inl e)) = Some e
   \<and> ((\<exists>k \<in> set (Proxy cfg). proxy_line_fails A k) \<longrightarrow> err (UpdateConfig A t (Inr cfg)) \<noteq> None)
   \<and> ((\<exists>k \<in> set (ProxyGroup cfg). group_line_fails A k) \<longrightarrow> err (UpdateConfig A t (Inr cfg)) \<noteq> None)"
proof (intro conjI impI)
  assume "err (UpdateConfig A t src) \<noteq> None"
  then show "tunnel (UpdateConfig A t src) = t" "events (UpdateConfig A t src) = []"
    using UpdateConfig_error_untouched by blast+
next
  show "err (UpdateConfig A t (Inl e)) = Some e" by (simp add: UpdateConfig_def)
next
  assume "\<exists>k \<in> set (Proxy cfg). proxy_line_fails A k"
  then show "err (UpdateConfig A t (Inr cfg)) \<noteq> None"
    using UpdateConfig_proxy_failure by blast
next
  assume "\<exists>k \<in> set (ProxyGroup cfg). group_line_fails A k"
  then show "err (UpdateConfig A t (Inr cfg)) \<noteq> None"
    using UpdateConfig_group_failure by blast
qed

theorem failed_update_keeps_tables_witness:
  "(\<exists>k \<in> set (Proxy sample_config). proxy_line_fails reject_ss k)
   \<and> err (UpdateConfig reject_ss with_groups (Inr sample_config)) \<noteq> None
   \<and> tunnel (UpdateConfig reject_ss with_groups (Inr sample_config)) = with_groups
   \<and> events (UpdateConfig reject_ss with_groups (Inr sample_config)) = []"
proof -
  have "proxy_line_fails reject_ss \<lparr>Name = ''PROXY1'', Value = ''ss, 1.2.3.4, 8388, aes-256-gcm, pass''\<rparr>"
    by code_simp
  then have h: "\<exists>k \<in> set (Proxy sample_config). proxy_line_fails reject_ss k"
    by (simp add: sample_config_def)
  from failed_update_keeps_tables [of reject_ss with_groups "Inr sample_config" "''unreadable''" sample_config]
    h show ?thesis by blast
qed

lemma stop_url_tests_set:
  "set (stop_url_tests ps) = Close ` {p. \<exists>name. (name, p) \<in> set ps \<and> is_URLTest p}"
  by (induction ps rule: stop_url_tests.induct) auto

text \<open>
  Claim C6. On every successful \<^verbatim>\<open>UpdateConfig\<close> the lock is taken, \<^verbatim>\<open>Close\<close> is called on
  the groups of the previous proxy table, on all of them and on nothing else, whatever
  the new table holds, and the lock is released after that. The order of the calls of
  \<^verbatim>\<open>Close\<close> among themselves is the order in which Go visits the map and is left open.
\<close>

theorem previous_groups_closed:
  assumes "err (UpdateConfig A t src) = None"
  shows "\<exists>closes. events (UpdateConfig A t src) = Lock # closes @ [Unlock]
           \<and> set closes = Close ` {p. \<exists>name. (name, p) \<in> set (proxies t) \<and> is_URLTest p}"
  using assms
  by (auto simp: UpdateConfig_def Let_def stop_url_tests_set split: sum.splits)

theorem previous_groups_closed_witness:
  "err (UpdateConfig accept_all with_groups (Inr sample_config)) = None
   \<and> events (UpdateConfig accept_all with_groups (Inr sample_config)) =
       [Lock,
        Close (URLTest ''AUTO'' [ShadowSocks ''PROXY1'' ''ss://aes-256-gcm:pass@1.2.3.4:8388'']
                 ''http://t/204'' 300000000000),
        Unlock]"
proof -
  have ok: "err (UpdateConfig accept_all with_groups (Inr sample_config)) = None"
    by code_simp
  have ev: "events (UpdateConfig accept_all with_groups (Inr sample_config)) =
       [Lock,
        Close (URLTest ''AUTO'' [ShadowSocks ''PROXY1'' ''ss://aes-256-gcm:pass@1.2.3.4:8388'']
                 ''http://t/204'' 300000000000),
        Unlock]"
    by code_simp
  from previous_groups_closed [OF ok] ok ev show ?thesis by simp
qed

section \<open>The rule section\<close>

lemma parse_rules_short_then_final:
  assumes "length (Split m) = 2" and "Split f = kind # payload # adapter # others"
    and "TrimSpace kind = ''FINAL''"
  shows "parse_rules [\<lparr>Name = m, Value = v\<rparr>, \<lparr>Name = f, Value = w\<rparr>] [] = [NewFinal (TrimSpace adapter)]"
    and "parse_rules [\<lparr>Name = f, Value = w\<rparr>, \<lparr>Name = m, Value = v\<rparr>] [] = [NewFinal (TrimSpace adapter)]"
  using assms by (simp_all add: Let_def trimArr_def)

text \<open>
  Claim C2, as the code has it. A rule line is compiled only when it has at least three
  fields, and the adapter of a \<open>FINAL\<close> line is its third field. A rule section of one
  line of two fields and one \<open>FINAL\<close> line of at least three fields, in either order,
  gives a rule table of exactly one rule, the final rule, whenever \<^verbatim>\<open>UpdateConfig\<close>
  succeeds; and it succeeds when the other two sections are empty.
\<close>

theorem final_line_of_three_fields_compiles:
  assumes "length (Split m) = 2"
    and "Split f = kind # payload # adapter # others"
    and "TrimSpace kind = ''FINAL''"
    and "Rule cfg = [\<lparr>Name = m, Value = v\<rparr>, \<lparr>Name = f, Value = w\<rparr>]
       \<or> Rule cfg = [\<lparr>Name = f, Value = w\<rparr>, \<lparr>Name = m, Value = v\<rparr>]"
  shows "(err (UpdateConfig A t (Inr cfg)) = None \<longrightarrow>
            rules (tunnel (UpdateConfig A t (Inr cfg))) = [NewFinal (TrimSpace adapter)])
       \<and> (Proxy cfg = [] \<and> ProxyGroup cfg = [] \<longrightarrow> err (UpdateConfig A t (Inr cfg)) = None)"
  using assms(4) parse_rules_short_then_final[OF assms(1-3)]
  by (auto simp: UpdateConfig_def Let_def split: sum.splits)

theorem final_line_of_three_fields_compiles_witness:
  "length (Split ''DOMAIN-SUFFIX,example.com'') = 2
   \<and> Split ''FINAL,,DIRECT'' = [''FINAL'', [], ''DIRECT'']
   \<and> TrimSpace ''FINAL'' = ''FINAL''
   \<and> Proxy three_field_final = [] \<and> ProxyGroup three_field_final = []
   \<and> err (UpdateConfig accept_all newTunnel (Inr three_field_final)) = None
   \<and> rules (tunnel (UpdateConfig accept_all newTunnel (Inr three_field_final))) = [NewFinal ''DIRECT'']"
proof -
  have 1: "length (Split ''DOMAIN-SUFFIX,example.com'') = 2" by code_simp
  have 2: "Split ''FINAL,,DIRECT'' = ''FINAL'' # [] # ''DIRECT'' # []" by code_simp
  have 3: "TrimSpace ''FINAL'' = ''FINAL''" by code_simp
  have 4: "TrimSpace ''DIRECT'' = ''DIRECT''" by code_simp
  have 5: "Rule three_field_final =
      [\<lparr>Name = ''DOMAIN-SUFFIX,example.com'', Value = ''true''\<rparr>, \<lparr>Name = ''FINAL,,DIRECT'', Value = ''true''\<rparr>]
    \<or> Rule three_field_final =
      [\<lparr>Name = ''FINAL,,DIRECT'', Value = ''true''\<rparr>, \<lparr>Name = ''DOMAIN-SUFFIX,example.com'', Value = ''true''\<rparr>]"
    by (simp add: three_field_final_def)
  have 6: "Proxy three_field_final = []" "ProxyGroup three_field_final = []"
    by (simp_all add: three_field_final_def)
  from final_line_of_three_fields_compiles [OF 1 2 3 5, of accept_all newTunnel] 1 2 3 4 6
  show ?thesis by simp
qed

text \<open>
  Claim C2 as it is written fails: with the \<open>FINAL\<close> line in the form \<open>FINAL,DIRECT\<close>
  of the specification, both lines have two fields, both are passed over, and the rule
  table is empty. No error is returned.
\<close>

theorem final_line_of_two_fields_counterexample:
  "length (Split ''DOMAIN-SUFFIX,example.com'') = 2
   \<and> Split ''FINAL,DIRECT'' = [''FINAL'', ''DIRECT'']
   \<and> err (UpdateConfig accept_all newTunnel (Inr two_field_final)) = None
   \<and> rules (tunnel (UpdateConfig accept_all newTunnel (Inr two_field_final))) = []"
  by code_simp

section \<open>The members of a group\<close>

lemma lookup_members_map_filter:
  "lookup_members ps names acc = acc @ List.map_filter (map_of ps) names"
  by (induction names arbitrary: acc) (auto simp: List.map_filter_simps split: option.splits)

lemma parse_groups_append:
  "parse_groups A (pre @ post) ps =
     (case parse_groups A pre ps of Inl e \<Rightarrow> Inl e | Inr ps' \<Rightarrow> parse_groups A post ps')"
  by (induction pre arbitrary: ps) (auto simp: Let_def split: sum.splits)

lemma parse_proxies_step:
  assumes "parse_proxies A (k # ks) acc = Inr ps"
  shows "\<exists>acc'. parse_proxies A ks acc' = Inr ps \<and> fst ` set acc' \<subseteq> insert (Name k) (fst ` set acc)"
proof (cases "length (Split (Value k)) < 5 \<or> trimArr (Split (Value k)) ! 0 \<noteq> ''ss''")
  case True
  with assms have "parse_proxies A ks acc = Inr ps"
    by (auto simp: Let_def split: if_splits)
  then show ?thesis by blast
next
  case False
  with assms obtain ss where "parse_proxies A ks (AList.update (Name k) ss acc) = Inr ps"
    by (auto simp: Let_def split: sum.splits)
  moreover have "fst ` set (AList.update (Name k) ss acc) \<subseteq> insert (Name k) (fst ` set acc)"
    by (simp add: dom_update)
  ultimately show ?thesis by blast
qed

lemma parse_proxies_keys:
  "parse_proxies A ks acc = Inr ps \<Longrightarrow> fst ` set ps \<subseteq> fst ` set acc \<union> Name ` set ks"
proof (induction ks arbitrary: acc)
  case Nil
  then show ?case by simp
next
  case (Cons k ks)
  from parse_proxies_step[OF Cons.prems] obtain acc'
    where run: "parse_proxies A ks acc' = Inr ps"
      and keys: "fst ` set acc' \<subseteq> insert (Name k) (fst ` set acc)" by blast
  from Cons.IH[OF run] keys show ?case by auto
qed

lemma parse_groups_step:
  assumes "parse_groups A (k # ks) acc = Inr ps"
  shows "\<exists>acc'. parse_groups A ks acc' = Inr ps \<and> fst ` set acc' \<subseteq> insert (Name k) (fst ` set acc)"
proof (cases "length (Split (Value k)) < 4 \<or> trimArr (Split (Value k)) ! 0 \<noteq> ''url-test''")
  case True
  with assms have "parse_groups A ks acc = Inr ps"
    by (auto simp: Let_def split: if_splits)
  then show ?thesis by blast
next
  case False
  with assms obtain adapter where "parse_groups A ks (AList.update (Name k) adapter acc) = Inr ps"
    by (auto simp: Let_def split: sum.splits)
  moreover have "fst ` set (AList.update (Name k) adapter acc) \<subseteq> insert (Name k) (fst ` set acc)"
    by (simp add: dom_update)
  ultimately show ?thesis by blast
qed

lemma parse_groups_keys:
  "parse_groups A ks acc = Inr ps \<Longrightarrow> fst ` set ps \<subseteq> fst ` set acc \<union> Name ` set ks"
proof (induction ks arbitrary: acc)
  case Nil
  then show ?case by simp
next
  case (Cons k ks)
  from parse_groups_step[OF Cons.prems] obtain acc'
    where run: "parse_groups A ks acc' = Inr ps"
      and keys: "fst ` set acc' \<subseteq> insert (Name k) (fst ` set acc)" by blast
  from Cons.IH[OF run] keys show ?case by auto
qed

lemma parse_groups_url_test:
  assumes "4 \<le> length (Split (Value key))" and "trimArr (Split (Value key)) ! 0 = ''url-test''"
  shows "parse_groups A (key # post) ps =
     (let group = trimArr (Split (Value key)) in
      case NewURLTest A (Name key)
             (List.map_filter (map_of ps) (drop 1 (take (length group - 2) group)))
             (group ! (length group - 2))
             (wrap64 (Duration (Atoi (group ! (length group - 1))) * Second)) of
        Inl e \<Rightarrow> Inl (''Config error: '' @ e)
      | Inr adapter \<Rightarrow> parse_groups A post (AList.update (Name key) adapter ps))"
  using assms by (simp add: Let_def lookup_members_map_filter)

text \<open>
  Claim C10, as the code has it. When a \<open>url-test\<close> line of the group section is compiled,
  the members handed to \<^verbatim>\<open>NewURLTest\<close> are the proxies that the map holds at that moment
  under the member names of the line, in the order of the line; a name that the map does
  not hold at that moment is left out without an error. The map then holds the proxies of
  the proxy section and the groups of the earlier lines of the group section, and nothing
  else: the built-in \<open>DIRECT\<close> and \<open>REJECT\<close> are not yet in it. The constructor is called
  with the members that remain, and the group is stored unless the constructor reports an
  error.
\<close>

theorem group_members_resolved_in_current_map:
  assumes "parse_proxies A (Proxy cfg) [] = Inr ps1"
    and "ProxyGroup cfg = pre @ key # post"
    and "parse_groups A pre ps1 = Inr ps2"
    and "4 \<le> length (Split (Value key))"
    and "trimArr (Split (Value key)) ! 0 = ''url-test''"
  shows "parse_groups A (ProxyGroup cfg) ps1 =
           (let group = trimArr (Split (Value key)) in
            case NewURLTest A (Name key)
                   (List.map_filter (map_of ps2) (drop 1 (take (length group - 2) group)))
                   (group ! (length group - 2))
                   (wrap64 (Duration (Atoi (group ! (length group - 1))) * Second)) of
              Inl e \<Rightarrow> Inl (''Config error: '' @ e)
            | Inr adapter \<Rightarrow> parse_groups A post (AList.update (Name key) adapter ps2))
       \<and> (\<forall>name. name \<notin> Name ` set (Proxy cfg) \<union> Name ` set pre \<longrightarrow> map_of ps2 name = None)"
proof
  show "parse_groups A (ProxyGroup cfg) ps1 =
           (let group = trimArr (Split (Value key)) in
            case NewURLTest A (Name key)
                   (List.map_filter (map_of ps2) (drop 1 (take (length group - 2) group)))
                   (group ! (length group - 2))
                   (wrap64 (Duration (Atoi (group ! (length group - 1))) * Second)) of
              Inl e \<Rightarrow> Inl (''Config error: '' @ e)
            | Inr adapter \<Rightarrow> parse_groups A post (AList.update (Name key) adapter ps2))"
    unfolding assms(2) parse_groups_append assms(3)
    using parse_groups_url_test[OF assms(4,5)] by simp
next
  have "fst ` set ps1 \<subseteq> Name ` set (Proxy cfg)"
    using parse_proxies_keys[OF assms(1)] by simp
  moreover have "fst ` set ps2 \<subseteq> fst ` set ps1 \<union> Name ` set pre"
    using parse_groups_keys[OF assms(3)] .
  ultimately have "fst ` set ps2 \<subseteq> Name ` set (Proxy cfg) \<union> Name ` set pre"
    by blast
  then show "\<forall>name. name \<notin> Name ` set (Proxy cfg) \<union> Name ` set pre \<longrightarrow> map_of ps2 name = None"
    by (auto simp: map_of_eq_None_iff)
qed


theorem group_members_resolved_in_current_map_witness:
  "parse_proxies accept_all (Proxy nested_groups) [] =
     Inr [(''PROXY1'', ShadowSocks ''PROXY1'' ''ss://aes-256-gcm:pass@1.2.3.4:8388'')]
   \<and> parse_groups accept_all (ProxyGroup nested_groups)
        [(''PROXY1'', ShadowSocks ''PROXY1'' ''ss://aes-256-gcm:pass@1.2.3.4:8388'')] =
      Inr [(''PROXY1'', ShadowSocks ''PROXY1'' ''ss://aes-256-gcm:pass@1.2.3.4:8388''),
           (''G1'', URLTest ''G1'' [ShadowSocks ''PROXY1'' ''ss://aes-256-gcm:pass@1.2.3.4:8388'']
                     ''http://t/204'' 10000000000),
           (''G2'', URLTest ''G2''
                     [URLTest ''G1'' [ShadowSocks ''PROXY1'' ''ss://aes-256-gcm:pass@1.2.3.4:8388'']
                        ''http://t/204'' 10000000000]
                     ''http://t/204'' 10000000000)]
   \<and> map_of [(''PROXY1'', ShadowSocks ''PROXY1'' ''ss://aes-256-gcm:pass@1.2.3.4:8388''),
              (''G1'', URLTest ''G1'' [ShadowSocks ''PROXY1'' ''ss://aes-256-gcm:pass@1.2.3.4:8388'']
                        ''http://t/204'' 10000000000)] ''REJECT'' = None"
proof -
  let ?ss = "ShadowSocks ''PROXY1'' ''ss://aes-256-gcm:pass@1.2.3.4:8388''"
  let ?g1 = "URLTest ''G1'' [?ss] ''http://t/204'' 10000000000"
  let ?k1 = "\<lparr>Name = ''G1'', Value = ''url-test, PROXY1, DIRECT, http://t/204, 10''\<rparr>"
  let ?k2 = "\<lparr>Name = ''G2'', Value = ''url-test, G1, REJECT, NOPE, http://t/204, 10''\<rparr>"
  have 1: "parse_proxies accept_all (Proxy nested_groups) [] = Inr [(''PROXY1'', ?ss)]"
    by code_simp
  have 2: "ProxyGroup nested_groups = [?k1] @ ?k2 # []"
    by (simp add: nested_groups_def)
  have 3: "parse_groups accept_all [?k1] [(''PROXY1'', ?ss)] = Inr [(''PROXY1'', ?ss), (''G1'', ?g1)]"
    by code_simp
  have 4: "4 \<le> length (Split (Value ?k2))"
    by code_simp
  have 5: "trimArr (Split (Value ?k2)) ! 0 = ''url-test''"
    by code_simp
  have 6: "parse_groups accept_all (ProxyGroup nested_groups) [(''PROXY1'', ?ss)] =
      Inr [(''PROXY1'', ?ss), (''G1'', ?g1),
           (''G2'', URLTest ''G2'' [?g1] ''http://t/204'' 10000000000)]"
    by code_simp
  have 7: "''REJECT'' \<notin> Name ` set (Proxy nested_groups) \<union> Name ` set [?k1]"
    by (simp add: nested_groups_def)
  from group_members_resolved_in_current_map [OF 1 2 3 4 5] 7
  have "map_of [(''PROXY1'', ?ss), (''G1'', ?g1)] ''REJECT'' = None"
    by blast
  with 1 6 show ?thesis by simp
qed

text \<open>
  Claim C10 as it is written fails: the name \<open>G1\<close> is not a key of the map built from
  the proxy section, and yet the group \<open>G2\<close> has a member for it, the group of the
  earlier line.
\<close>

theorem group_member_from_earlier_group_counterexample:
  "parse_proxies accept_all (Proxy nested_groups) [] =
     Inr [(''PROXY1'', ShadowSocks ''PROXY1'' ''ss://aes-256-gcm:pass@1.2.3.4:8388'')]
   \<and> map_of [(''PROXY1'', ShadowSocks ''PROXY1'' ''ss://aes-256-gcm:pass@1.2.3.4:8388'')] ''G1'' = None
   \<and> map_of (proxies (tunnel (UpdateConfig accept_all newTunnel (Inr nested_groups)))) ''G2'' =
       Some (URLTest ''G2''
               [URLTest ''G1'' [ShadowSocks ''PROXY1'' ''ss://aes-256-gcm:pass@1.2.3.4:8388'']
                  ''http://t/204'' 10000000000]
               ''http://t/204'' 10000000000)"
  by code_simp

section \<open>Handling a connection\<close>

text \<open>
  Claim C9. On every path out of \<^verbatim>\<open>handleConn\<close>, a return or a panic, the local connection
  is closed, once, as the last thing done. When the proxy's \<^verbatim>\<open>Generator\<close> returns an error,
  a log event of level \<open>WARNING\<close> carrying the error is sent and the function returns with
  no call on an outbound connection. When it returns a connection, the relay is called
  once and the outbound connection is closed after it, whether the relay returns or
  panics.
\<close>

theorem handleConn_closes_connections:
  "(\<exists>pre. fst (handleConn M G R t addr) = pre @ [LocalClose] \<and> LocalClose \<notin> set pre)
   \<and> (snd (match M t addr) = Some proxy \<and> G proxy addr = Returns (Inl e) \<longrightarrow>
        handleConn M G R t addr =
          ([LogSend (fst (match M t addr)),
            LogSend (newLog WARNING ''Proxy connect error: %s'' [Str e]),
            LocalClose], Returned))
   \<and> (snd (match M t addr) = Some proxy \<and> G proxy addr = Returns (Inr remoteConn) \<longrightarrow>
        fst (handleConn M G R t addr) =
          [LogSend (fst (match M t addr)), LocalConnect remoteConn, RemoteClose remoteConn,
           LocalClose])"
proof (cases "match M t addr")
  case (Pair l found)
  show ?thesis
  proof (cases found)
    case None
    with Pair show ?thesis by (simp add: handleConn_def)
  next
    case (Some p)
    show ?thesis
    proof (cases "G p addr")
      case Panics
      with Pair Some show ?thesis by (auto simp: handleConn_def)
    next
      case (Returns r)
      with Pair Some show ?thesis
        by (cases r) (auto simp: handleConn_def split: call.splits)
    qed
  qed
qed

theorem handleConn_closes_connections_witness:
  "snd (match final_only stale_first ''other.org'') =
     Some (ShadowSocks ''PROXY1'' ''ss://aes-256-gcm:pass@1.2.3.4:8388'')
   \<and> handleConn final_only refuse relay_panics stale_first ''other.org'' =
       ([LogSend (fst (match final_only stale_first ''other.org'')),
         LogSend (newLog WARNING ''Proxy connect error: %s'' [Str ''connection refused'']),
         LocalClose], Returned)
   \<and> handleConn final_only dial relay_panics stale_first ''other.org'' =
       ([LogSend (fst (match final_only stale_first ''other.org'')),
         LocalConnect 7, RemoteClose 7, LocalClose], Panicked)"
proof -
  let ?p = "ShadowSocks ''PROXY1'' ''ss://aes-256-gcm:pass@1.2.3.4:8388''"
  have 1: "snd (match final_only stale_first ''other.org'') = Some ?p"
    by (simp add: match_def stale_first_def)
  have 2: "refuse ?p ''other.org'' = Returns (Inl ''connection refused'')"
    by (simp add: refuse_def)
  have 3: "dial ?p ''other.org'' = Returns (Inr 7)"
    by (simp add: dial_def)
  have 4: "snd (handleConn final_only dial relay_panics stale_first ''other.org'') = Panicked"
    using 1 3 by (auto simp: handleConn_def relay_panics_def split: prod.splits)
  from handleConn_closes_connections [of final_only refuse relay_panics stale_first "''other.org''" ?p
      "''connection refused''"] 1 2
  have a: "handleConn final_only refuse relay_panics stale_first ''other.org'' =
       ([LogSend (fst (match final_only stale_first ''other.org'')),
         LogSend (newLog WARNING ''Proxy connect error: %s'' [Str ''connection refused'']),
         LocalClose], Returned)"
    by blast
  from handleConn_closes_connections [of final_only dial relay_panics stale_first "''other.org''" ?p
      _ 7] 1 3
  have b: "fst (handleConn final_only dial relay_panics stale_first ''other.org'') =
       [LogSend (fst (match final_only stale_first ''other.org'')),
         LocalConnect 7, RemoteClose 7, LocalClose]"
    by blast
  from 1 a b 4 show ?thesis by (simp add: prod_eq_iff)
qed

section \<open>Streaming the log\<close>

lemma levelMapping_cases:
  "levelMapping lv = Some level \<longleftrightarrow>
     (lv = ''info'' \<and> level = INFO) \<or> (lv = ''debug'' \<and> level = DEBUG)
     \<or> (lv = ''error'' \<and> level = ERROR) \<or> (lv = ''warning'' \<and> level = WARNING)"
  by (auto simp: levelMapping_def)

lemma levelMapping_None:
  "levelMapping lv = None \<longleftrightarrow> lv \<notin> {''info'', ''debug'', ''error'', ''warning''}"
  by (auto simp: levelMapping_def)

lemma severity_order:
  fixes V :: "LogLevel \<Rightarrow> int"
  assumes "V ERROR < V WARNING" "V WARNING < V INFO" "V INFO < V DEBUG"
  shows "V a > V b \<longleftrightarrow> spec_severity a < spec_severity b"
  using assms by (cases a; cases b) auto

lemma stream_all_written:
  assumes "V ERROR < V WARNING" "V WARNING < V INFO" "V INFO < V DEBUG" and "\<And>n. W n"
  shows "stream V T W level sub n =
     map (\<lambda>log. LogEntry (T log) (Payload log))
       (filter (\<lambda>log. spec_severity level \<le> spec_severity (LogLevel log)) sub)"
  by (induction sub arbitrary: n) (auto simp: severity_order[OF assms(1-3)] assms(4))

lemma logsHandler_recognised:
  assumes "V ERROR < V WARNING" "V WARNING < V INFO" "V INFO < V DEBUG" and "\<And>n. W n"
    and "levelMapping (if lv = [] then ''info'' else lv) = Some level"
  shows "logsHandler V T W (Inr \<lparr>Level = lv\<rparr>) (Inr published) True =
           Stream (spec_delivered T level published)"
  using assms(5)
  by (auto simp: logsHandler_def spec_delivered_def stream_all_written[OF assms(1-4)]
      split: if_splits)

text \<open>
  Claim C8. A request with an empty level is served as one with the level \<open>info\<close>. A
  level that is not empty and not one of \<open>debug\<close>, \<open>info\<close>, \<open>warning\<close>, \<open>error\<close> is
  answered with the status 400. For each of the four levels, and for the empty level as
  \<open>info\<close>, when no write fails, the entries written are exactly those of the published
  events whose severity is at or above the level of that name, in the order
  \<open>debug < info < warning < error\<close>. The numbers behind the level constants are declared
  outside the sources; the statement is for a numbering in which a more severe level has
  the smaller number, as in \<^verbatim>\<open>ERROR = iota\<close>, \<^verbatim>\<open>WARNING\<close>, \<^verbatim>\<open>INFO\<close>, \<^verbatim>\<open>DEBUG\<close>.
\<close>

theorem logs_filtered_by_minimum_severity:
  assumes "V ERROR < V WARNING" "V WARNING < V INFO" "V INFO < V DEBUG"
  shows "logsHandler V T W (Inr \<lparr>Level = ''''\<rparr>) subscribed flusher =
           logsHandler V T W (Inr \<lparr>Level = ''info''\<rparr>) subscribed flusher
       \<and> (lv \<notin> {'''', ''debug'', ''info'', ''warning'', ''error''} \<longrightarrow>
            logsHandler V T W (Inr \<lparr>Level = lv\<rparr>) subscribed flusher =
              Error ''Invalid log level'' 400)
       \<and> ((\<forall>n. W n) \<longrightarrow>
            logsHandler V T W (Inr \<lparr>Level = ''debug''\<rparr>) (Inr published) True =
              Stream (spec_delivered T DEBUG published)
          \<and> logsHandler V T W (Inr \<lparr>Level = ''info''\<rparr>) (Inr published) True =
              Stream (spec_delivered T INFO published)
          \<and> logsHandler V T W (Inr \<lparr>Level = ''warning''\<rparr>) (Inr published) True =
              Stream (spec_delivered T WARNING published)
          \<and> logsHandler V T W (Inr \<lparr>Level = ''error''\<rparr>) (Inr published) True =
              Stream (spec_delivered T ERROR published)
          \<and> logsHandler V T W (Inr \<lparr>Level = ''''\<rparr>) (Inr published) True =
              Stream (spec_delivered T INFO published))"
proof (intro conjI impI)
  show "logsHandler V T W (Inr \<lparr>Level = ''''\<rparr>) subscribed flusher =
           logsHandler V T W (Inr \<lparr>Level = ''info''\<rparr>) subscribed flusher"
    by (simp add: logsHandler_def)
next
  assume "lv \<notin> {'''', ''debug'', ''info'', ''warning'', ''error''}"
  then have "lv \<noteq> []" and "levelMapping lv = None"
    by (auto simp: levelMapping_None)
  then show "logsHandler V T W (Inr \<lparr>Level = lv\<rparr>) subscribed flusher = Error ''Invalid log level'' 400"
    by (simp add: logsHandler_def StatusBadRequest_def)
next
  assume w: "\<forall>n. W n"
  then have w': "\<And>n. W n" by simp
  show "logsHandler V T W (Inr \<lparr>Level = ''debug''\<rparr>) (Inr published) True =
          Stream (spec_delivered T DEBUG published)"
    by (rule logsHandler_recognised[OF assms w']) (simp add: levelMapping_def)
  show "logsHandler V T W (Inr \<lparr>Level = ''info''\<rparr>) (Inr published) True =
          Stream (spec_delivered T INFO published)"
    by (rule logsHandler_recognised[OF assms w']) (simp add: levelMapping_def)
  show "logsHandler V T W (Inr \<lparr>Level = ''warning''\<rparr>) (Inr published) True =
          Stream (spec_delivered T WARNING published)"
    by (rule logsHandler_recognised[OF assms w']) (simp add: levelMapping_def)
  show "logsHandler V T W (Inr \<lparr>Level = ''error''\<rparr>) (Inr published) True =
          Stream (spec_delivered T ERROR published)"
    by (rule logsHandler_recognised[OF assms w']) (simp add: levelMapping_def)
  show "logsHandler V T W (Inr \<lparr>Level = ''''\<rparr>) (Inr published) True =
          Stream (spec_delivered T INFO published)"
    by (rule logsHandler_recognised[OF assms w']) (simp add: levelMapping_def)
qed

theorem logs_filtered_by_minimum_severity_witness:
  "iota_levels ERROR < iota_levels WARNING \<and> iota_levels WARNING < iota_levels INFO
   \<and> iota_levels INFO < iota_levels DEBUG
   \<and> logsHandler iota_levels type_name (\<lambda>n. True) (Inr \<lparr>Level = ''verbose''\<rparr>) (Inr sample_logs) True =
       Error ''Invalid log level'' 400
   \<and> logsHandler iota_levels type_name (\<lambda>n. True) (Inr \<lparr>Level = ''error''\<rparr>) (Inr sample_logs) True =
       Stream [LogEntry ''Error'' ''listener stopped'']
   \<and> logsHandler iota_levels type_name (\<lambda>n. True) (Inr \<lparr>Level = ''warning''\<rparr>) (Inr sample_logs) True =
       Stream [LogEntry ''Error'' ''listener stopped'',
               LogEntry ''Warning'' ''Proxy connect error: refused'']
   \<and> logsHandler iota_levels type_name (\<lambda>n. True) (Inr \<lparr>Level = ''''\<rparr>) (Inr sample_logs) True =
       Stream [LogEntry ''Info'' ''a.org match FINAL using DIRECT'',
               LogEntry ''Error'' ''listener stopped'',
               LogEntry ''Warning'' ''Proxy connect error: refused'']"
proof -
  have 1: "iota_levels ERROR < iota_levels WARNING" "iota_levels WARNING < iota_levels INFO"
    "iota_levels INFO < iota_levels DEBUG"
    by (simp_all add: iota_levels_def)
  have 2: "\<forall>n. (\<lambda>n. True) n"
    by simp
  have 3: "''verbose'' \<notin> {'''', ''debug'', ''info'', ''warning'', ''error''}"
    by simp
  note inst = logs_filtered_by_minimum_severity [OF 1, of type_name "\<lambda>n. True" "Inr sample_logs" True
        "''verbose''" sample_logs]
  have 4: "logsHandler iota_levels type_name (\<lambda>n. True) (Inr \<lparr>Level = ''verbose''\<rparr>) (Inr sample_logs) True =
       Error ''Invalid log level'' 400"
    using inst 3 by blast
  have 5: "logsHandler iota_levels type_name (\<lambda>n. True) (Inr \<lparr>Level = ''error''\<rparr>) (Inr sample_logs) True =
       Stream (spec_delivered type_name ERROR sample_logs)"
    and 6: "logsHandler iota_levels type_name (\<lambda>n. True) (Inr \<lparr>Level = ''warning''\<rparr>) (Inr sample_logs) True =
       Stream (spec_delivered type_name WARNING sample_logs)"
    and 7: "logsHandler iota_levels type_name (\<lambda>n. True) (Inr \<lparr>Level = ''''\<rparr>) (Inr sample_logs) True =
       Stream (spec_delivered type_name INFO sample_logs)"
    using inst 2 by blast+
  have 8: "spec_delivered type_name ERROR sample_logs = [LogEntry ''Error'' ''listener stopped'']"
    "spec_delivered type_name WARNING sample_logs =
       [LogEntry ''Error'' ''listener stopped'', LogEntry ''Warning'' ''Proxy connect error: refused'']"
    "spec_delivered type_name INFO sample_logs =
       [LogEntry ''Info'' ''a.org match FINAL using DIRECT'', LogEntry ''Error'' ''listener stopped'',
        LogEntry ''Warning'' ''Proxy connect error: refused'']"
    by (simp_all add: spec_delivered_def sample_logs_def type_name_def)
  from 1 4 5 6 7 show ?thesis by (simp only: 8 simp_thms)
qed

end
